theory Spec2Isabelle
  imports Complex_Main "HOL-Library.Word" "HOL-Library.AList"
begin

section \<open>Values of the program\<close>

text \<open>
  The module \<^verbatim>\<open>polypyus/graph.py\<close> builds a trie over byte patterns with wildcard
  positions and scans byte buffers with it. Bytes are 8-bit words, Python integers are
  \<open>int\<close>, positions and node numbers that the code only ever counts upwards from zero
  are \<open>nat\<close>. An exception is a value \<open>Inl e\<close> of the result.
\<close>

type_synonym byte = "8 word"

datatype error = IndexError | ZeroDivisionError | RecursionError

text \<open>
  A \<^verbatim>\<open>defaultdict(list)\<close> is a dictionary in insertion order whose lookup of a missing
  key stores the empty list under that key and returns it. \<open>dd_get\<close> is that lookup
  (value and dictionary afterwards); \<open>dd_peek\<close> is the value alone.
\<close>

type_synonym ('k, 'v) defaultdict = "('k \<times> 'v list) list"

definition dd_peek :: "('k, 'v) defaultdict \<Rightarrow> 'k \<Rightarrow> 'v list" where
  "dd_peek d k = (case map_of d k of None \<Rightarrow> [] | Some v \<Rightarrow> v)"

definition dd_touch :: "('k, 'v) defaultdict \<Rightarrow> 'k \<Rightarrow> ('k, 'v) defaultdict" where
  "dd_touch d k = (case map_of d k of None \<Rightarrow> d @ [(k, [])] | Some v \<Rightarrow> d)"

definition dd_get :: "('k, 'v) defaultdict \<Rightarrow> 'k \<Rightarrow> 'v list \<times> ('k, 'v) defaultdict" where
  "dd_get d k = (dd_peek d k, dd_touch d k)"

definition dd_append :: "('k, 'v) defaultdict \<Rightarrow> 'k \<Rightarrow> 'v \<Rightarrow> ('k, 'v) defaultdict" where
  "dd_append d k x = AList.update k (dd_peek d k @ [x]) d"

text \<open>Indexing a Python list with a non-negative index.\<close>

definition py_nth :: "'a list \<Rightarrow> nat \<Rightarrow> error + 'a" where
  "py_nth xs i = (if i < length xs then Inr (xs ! i) else Inl IndexError)"

section \<open>Fragments\<close>

text \<open>
  Modelled from the spec: the class \<^verbatim>\<open>MatchFragment\<close> of \<^verbatim>\<open>polypyus.tools\<close> is not part
  of the sources at hand. The spec describes it as an ordered sequence of bytes plus an
  equal-length sequence of wildcard flags, with a length, a wildcard-aware comparison
  with raw bytes, a longest common prefix with another fragment, a split into a prefix
  (kept) and a suffix (returned), the dropping of a prefix, and a wildcard ratio.
  A fragment is a list of positions, each the template byte and its wildcard flag.
  Two positions agree when their flags are equal and, for literal positions, their bytes
  are equal. A position matches a byte when it is a wildcard or carries that byte.
\<close>

type_synonym MatchFragment = "(byte \<times> bool) list"

definition template :: "MatchFragment \<Rightarrow> byte list" where
  "template f = map fst f"

definition fuzziness :: "MatchFragment \<Rightarrow> bool list" where
  "fuzziness f = map snd f"

definition literal :: "byte list \<Rightarrow> MatchFragment" where
  "literal bs = map (\<lambda>b. (b, False)) bs"

definition position_agrees :: "byte \<times> bool \<Rightarrow> byte \<times> bool \<Rightarrow> bool" where
  "position_agrees a b = (snd a = snd b \<and> (snd a \<or> fst a = fst b))"

fun fragment_lcp :: "MatchFragment \<Rightarrow> MatchFragment \<Rightarrow> nat" where
  "fragment_lcp (a # as) (b # bs) = (if position_agrees a b then Suc (fragment_lcp as bs) else 0)"
| "fragment_lcp _ _ = 0"

definition split_at :: "MatchFragment \<Rightarrow> nat \<Rightarrow> MatchFragment \<times> MatchFragment" where
  "split_at f n = (take n f, drop n f)"

definition drop_before :: "MatchFragment \<Rightarrow> nat \<Rightarrow> MatchFragment" where
  "drop_before f n = drop n f"

definition position_matches :: "byte \<times> bool \<Rightarrow> byte \<Rightarrow> bool" where
  "position_matches a b = (snd a \<or> fst a = b)"

definition fragment_eq :: "MatchFragment \<Rightarrow> byte list \<Rightarrow> bool" where
  "fragment_eq f bs = (length f = length bs \<and> list_all2 position_matches f bs)"

definition fuzz_ratio :: "MatchFragment \<Rightarrow> rat" where
  "fuzz_ratio f = (if f = [] then 0 else of_nat (length (filter snd f)) / of_nat (length f))"

section \<open>Edges\<close>

datatype PathClassification = DISJUNCT | EQUAL | PART | BRANCH

text \<open>
  The class \<^verbatim>\<open>Edge\<close>. The weight is a Python number: an integer after the match-size pass,
  a float after the fuzziness pass; the model keeps it as an exact rational.
\<close>

record Edge =
  to :: nat
  path :: MatchFragment
  len :: nat
  match_size :: int
  weight :: rat

definition Edge_init :: "nat \<Rightarrow> MatchFragment \<Rightarrow> int option \<Rightarrow> Edge" where
  "Edge_init t p ms =
     (let l = length p;
          m = (case ms of None \<Rightarrow> int l | Some s \<Rightarrow> s)
      in \<lparr>to = t, path = p, len = l, match_size = m, weight = of_int m\<rparr>)"

definition matches :: "Edge \<Rightarrow> byte list \<Rightarrow> bool" where
  "matches e against = fragment_eq (path e) against"

definition longest_common_prefix :: "Edge \<Rightarrow> MatchFragment \<Rightarrow> nat" where
  "longest_common_prefix e against = fragment_lcp (path e) against"

definition classify_path :: "Edge \<Rightarrow> MatchFragment \<Rightarrow> PathClassification \<times> nat" where
  "classify_path e p =
     (let lp = length p;
          longest_prefix = longest_common_prefix e p
      in (if longest_prefix = len e then (if lp = len e then EQUAL else PART)
          else if longest_prefix = 0 then DISJUNCT
          else BRANCH, longest_prefix))"

section \<open>The graph\<close>

text \<open>
  The class \<^verbatim>\<open>Graph\<close>: \<open>data\<close> and every element of \<open>adjacency\<close> are
  \<^verbatim>\<open>defaultdict(list)\<close>, \<open>adjacency\<close> and \<open>fuzzy_starts\<close> are lists indexed by node.
  Payloads are values of a type \<open>'p\<close>; Python's \<^verbatim>\<open>None\<close>, which \<^verbatim>\<open>_new_node\<close> reads as
  "no payload", is not one of them.
\<close>

record 'p Graph =
  data :: "(nat, 'p) defaultdict"
  adjacency :: "(int, Edge) defaultdict list"
  fuzzy_starts :: "Edge list list"
  longest_path :: int
  bin_count :: int
  nodes :: nat
  finalized :: bool

definition Graph_init :: "int \<Rightarrow> 'p Graph" where
  "Graph_init bc =
     \<lparr>data = [], adjacency = [[]], fuzzy_starts = [[]], longest_path = 0,
      bin_count = bc, nodes = 1, finalized = False\<rparr>"

definition to_bin :: "'p Graph \<Rightarrow> byte \<Rightarrow> error + int" where
  "to_bin g b = (if bin_count g = 0 then Inl ZeroDivisionError else Inr (uint b mod bin_count g))"

definition new_node :: "'p option \<Rightarrow> 'p Graph \<Rightarrow> 'p Graph" where
  "new_node d g =
     (let g1 = (case d of None \<Rightarrow> g | Some x \<Rightarrow> g\<lparr>data := dd_append (data g) (nodes g) x\<rparr>)
      in g1\<lparr>adjacency := adjacency g1 @ [[]],
            fuzzy_starts := fuzzy_starts g1 @ [[]],
            nodes := nodes g1 + 1\<rparr>)"

definition add_edge :: "nat \<Rightarrow> nat \<Rightarrow> MatchFragment \<Rightarrow> int option \<Rightarrow> 'p Graph \<Rightarrow> error + 'p Graph" where
  "add_edge from t p ms g =
     (let edge = Edge_init t p ms in
      case p of
        [] \<Rightarrow> Inl IndexError
      | (b, fuzzy) # _ \<Rightarrow>
          if fuzzy then
            (if from < length (fuzzy_starts g)
             then Inr (g\<lparr>fuzzy_starts := (fuzzy_starts g)[from := fuzzy_starts g ! from @ [edge]]\<rparr>)
             else Inl IndexError)
          else
            (case to_bin g b of
               Inl e \<Rightarrow> Inl e
             | Inr bin \<Rightarrow>
                 if from < length (adjacency g)
                 then Inr (g\<lparr>adjacency := (adjacency g)[from := dd_append (adjacency g ! from) bin edge]\<rparr>)
                 else Inl IndexError))"

text \<open>
  An edge object lives in exactly one list of the graph: the fuzzy-start list of a node,
  or one bin of a node. The model names it by that place.
\<close>

datatype edge_list = Fuzzy nat | Bin nat int

type_synonym edge_ref = "edge_list \<times> nat"

fun edges_of :: "'p Graph \<Rightarrow> edge_list \<Rightarrow> Edge list" where
  "edges_of g (Fuzzy n) = fuzzy_starts g ! n"
| "edges_of g (Bin n k) = dd_peek (adjacency g ! n) k"

fun set_edges :: "'p Graph \<Rightarrow> edge_list \<Rightarrow> Edge list \<Rightarrow> 'p Graph" where
  "set_edges g (Fuzzy n) es = g\<lparr>fuzzy_starts := (fuzzy_starts g)[n := es]\<rparr>"
| "set_edges g (Bin n k) es = g\<lparr>adjacency := (adjacency g)[n := AList.update k es (adjacency g ! n)]\<rparr>"

definition get_edge :: "'p Graph \<Rightarrow> edge_ref \<Rightarrow> Edge" where
  "get_edge g r = edges_of g (fst r) ! snd r"

definition set_edge :: "'p Graph \<Rightarrow> edge_ref \<Rightarrow> Edge \<Rightarrow> 'p Graph" where
  "set_edge g r e = set_edges g (fst r) ((edges_of g (fst r))[snd r := e])"

text \<open>
  \<^verbatim>\<open>_split_edge\<close>, statement by statement: the edge's fragment is cut at \<open>at\<close> and the
  edge keeps the prefix; its length becomes \<open>at\<close>; a node is added; an edge from the new
  node to the old destination is added with the suffix and the edge's match size as it is
  at that moment; the edge is redirected to the new node; its match size is lowered by
  \<open>at\<close>.
\<close>

definition split_edge :: "edge_ref \<Rightarrow> nat \<Rightarrow> 'p Graph \<Rightarrow> error + 'p Graph" where
  "split_edge r at' g =
     (let edge = get_edge g r;
          (prefix, fragment) = split_at (path edge) at';
          edge1 = edge\<lparr>path := prefix, len := at'\<rparr>;
          g1 = new_node None (set_edge g r edge1)
      in case add_edge (nodes g1 - 1) (to edge1) fragment (Some (match_size edge1)) g1 of
           Inl e \<Rightarrow> Inl e
         | Inr g2 \<Rightarrow>
             (let edge2 = get_edge g2 r;
                  edge3 = edge2\<lparr>to := nodes g2 - 1\<rparr>;
                  edge4 = edge3\<lparr>match_size := match_size edge3 - int at'\<rparr>
              in Inr (set_edge g2 r edge4)))"

section \<open>Insertion\<close>

text \<open>
  The choice of the candidate list at the head of the loop of \<^verbatim>\<open>insert\<close>: the fuzzy-start
  list of the node when the first position is a wildcard, else the bin of its first byte.
  Reading the bin of a \<^verbatim>\<open>defaultdict\<close> stores the bin when it is missing.
\<close>

definition select_edges :: "'p Graph \<Rightarrow> MatchFragment \<Rightarrow> nat \<Rightarrow> error + edge_list \<times> 'p Graph" where
  "select_edges g p next_node =
     (case p of
        [] \<Rightarrow> Inl IndexError
      | (b, fuzzy) # _ \<Rightarrow>
          if fuzzy then
            (if next_node < length (fuzzy_starts g) then Inr (Fuzzy next_node, g)
             else Inl IndexError)
          else
            (case to_bin g b of
               Inl e \<Rightarrow> Inl e
             | Inr bin \<Rightarrow>
                 if next_node < length (adjacency g)
                 then Inr (Bin next_node bin,
                           g\<lparr>adjacency := (adjacency g)[next_node := dd_touch (adjacency g ! next_node) bin]\<rparr>)
                 else Inl IndexError))"

text \<open>
  The \<^verbatim>\<open>for edge in edges\<close> loop with its \<^verbatim>\<open>else\<close> branch. It leaves by \<^verbatim>\<open>break\<close>
  (the path goes on below the edge) or by \<^verbatim>\<open>return\<close>.
\<close>

datatype 'p for_exit = Break MatchFragment nat | Return bool "'p Graph"

fun insert_for ::
  "'p Graph \<Rightarrow> edge_list \<Rightarrow> nat \<Rightarrow> Edge list \<Rightarrow> MatchFragment \<Rightarrow> 'p \<Rightarrow> int \<Rightarrow> nat \<Rightarrow> error + 'p for_exit"
where
  "insert_for g l i [] p d ms next_node =
     (case add_edge next_node (nodes g) p (Some ms) g of
        Inl e \<Rightarrow> Inl e
      | Inr g1 \<Rightarrow> Inr (Return True (new_node (Some d) g1)))"
| "insert_for g l i (edge # rest) p d ms next_node =
     (case classify_path edge p of
        (PART, prefix_len) \<Rightarrow> Inr (Break (drop_before p prefix_len) (to edge))
      | (EQUAL, prefix_len) \<Rightarrow> Inr (Return False (g\<lparr>data := dd_append (data g) (to edge) d\<rparr>))
      | (BRANCH, prefix_len) \<Rightarrow>
          (case split_edge (l, i) prefix_len g of
             Inl e \<Rightarrow> Inl e
           | Inr g1 \<Rightarrow>
               (let p1 = drop_before p prefix_len in
                if length p1 > 0 then
                  (case add_edge (nodes g1 - 1) (nodes g1) p1 (Some ms) g1 of
                     Inl e \<Rightarrow> Inl e
                   | Inr g2 \<Rightarrow> Inr (Return True (new_node (Some d) g2)))
                else Inr (Return True (g1\<lparr>data := dd_append (data g1) (nodes g1 - 1) d\<rparr>))))
      | (DISJUNCT, prefix_len) \<Rightarrow> insert_for g l (i + 1) rest p d ms next_node)"

text \<open>
  The \<^verbatim>\<open>while len(path) > 0\<close> loop. Nothing in the code bounds it on a graph whose
  edges may have length zero, so the model is a partial function: \<open>None\<close> is a loop that
  never ends. A path that is empty from the start falls through the loop and the
  function returns Python's \<^verbatim>\<open>None\<close>, the \<open>None\<close> of the \<open>bool option\<close>.
\<close>

partial_function (option) insert_while ::
  "'p Graph \<Rightarrow> MatchFragment \<Rightarrow> 'p \<Rightarrow> int \<Rightarrow> nat \<Rightarrow> (error + bool option \<times> 'p Graph) option"
where
  "insert_while g p d ms next_node =
     (if length p > 0 then
        (case select_edges g p next_node of
           Inl e \<Rightarrow> Some (Inl e)
         | Inr (l, g1) \<Rightarrow>
             (case insert_for g1 l 0 (edges_of g1 l) p d ms next_node of
                Inl e \<Rightarrow> Some (Inl e)
              | Inr (Break p1 n1) \<Rightarrow> insert_while g1 p1 d ms n1
              | Inr (Return b g2) \<Rightarrow> Some (Inr (Some b, g2))))
      else Some (Inr (None, g)))"

definition Graph_insert :: "MatchFragment \<Rightarrow> 'p \<Rightarrow> 'p Graph \<Rightarrow> (error + bool option \<times> 'p Graph) option" where
  "Graph_insert p d g = insert_while (g\<lparr>finalized := False\<rparr>) p d (int (length p)) 0"

section \<open>Finalization\<close>

text \<open>
  \<^verbatim>\<open>edges_at\<close> yields the edges of every bin of a node, in the order of the bins, and then
  its fuzzy-start edges. The passes below assign to the weight of the edges they visit, so
  the model walks over the places of these edges.
\<close>

definition edges_at :: "'p Graph \<Rightarrow> nat \<Rightarrow> Edge list" where
  "edges_at g node = concat (map snd (adjacency g ! node)) @ fuzzy_starts g ! node"

definition edge_refs_at :: "'p Graph \<Rightarrow> nat \<Rightarrow> edge_ref list" where
  "edge_refs_at g node =
     concat (map (\<lambda>(k, es). map (\<lambda>i. (Bin node k, i)) [0..<length es]) (adjacency g ! node))
     @ map (\<lambda>i. (Fuzzy node, i)) [0..<length (fuzzy_starts g ! node)]"

text \<open>
  Python bounds the depth of nested calls (1000 frames unless the interpreter is told
  otherwise) and raises \<^verbatim>\<open>RecursionError\<close> beyond it. The recursive passes take the depth
  that is left as their first argument.
\<close>

definition recursion_limit :: nat where
  "recursion_limit = 1000"

fun get_max_match_size :: "nat \<Rightarrow> 'p Graph \<Rightarrow> nat \<Rightarrow> error + int \<times> 'p Graph"
  and max_match_size_for :: "nat \<Rightarrow> 'p Graph \<Rightarrow> edge_ref list \<Rightarrow> int \<Rightarrow> error + int \<times> 'p Graph"
where
  "get_max_match_size depth g node =
     (if node < length (adjacency g) \<and> node < length (fuzzy_starts g)
      then max_match_size_for depth g (edge_refs_at g node) 0
      else Inl IndexError)"
| "max_match_size_for depth g [] max_match_size = Inr (max_match_size, g)"
| "max_match_size_for 0 g (r # rs) max_match_size = Inl RecursionError"
| "max_match_size_for (Suc depth) g (r # rs) max_match_size =
     (case get_max_match_size depth g (to (get_edge g r)) of
        Inl e \<Rightarrow> Inl e
      | Inr (below, g1) \<Rightarrow>
          (let edge = get_edge g1 r;
               w = max below (match_size edge);
               g2 = set_edge g1 r (edge\<lparr>weight := of_int w\<rparr>)
           in max_match_size_for (Suc depth) g2 rs (max w max_match_size)))"

definition weighted_mean :: "rat list \<Rightarrow> nat list \<Rightarrow> rat \<times> nat" where
  "weighted_mean ratios counts =
     (let num = sum_list counts in
      if num = 0 then (0, 0)
      else (sum_list (map (\<lambda>(r, c). r * of_nat c) (zip ratios counts)) / of_nat num, num))"

fun get_mean_fuzziness :: "nat \<Rightarrow> 'p Graph \<Rightarrow> nat \<Rightarrow> error + (rat \<times> nat) \<times> 'p Graph"
  and mean_fuzziness_for ::
    "nat \<Rightarrow> 'p Graph \<Rightarrow> edge_ref list \<Rightarrow> rat list \<Rightarrow> nat list \<Rightarrow> error + (rat \<times> nat) \<times> 'p Graph"
where
  "get_mean_fuzziness depth g node =
     (if node < length (adjacency g) \<and> node < length (fuzzy_starts g)
      then mean_fuzziness_for depth g (edge_refs_at g node) [] []
      else Inl IndexError)"
| "mean_fuzziness_for depth g [] ratios counts = Inr (weighted_mean ratios counts, g)"
| "mean_fuzziness_for 0 g (r # rs) ratios counts = Inl RecursionError"
| "mean_fuzziness_for (Suc depth) g (r # rs) ratios counts =
     (case get_mean_fuzziness depth g (to (get_edge g r)) of
        Inl e \<Rightarrow> Inl e
      | Inr ((t_ratio, t_count), g1) \<Rightarrow>
          (let edge = get_edge g1 r;
               (ratio, count) = weighted_mean [fuzz_ratio (path edge), t_ratio]
                                              [length (path edge), t_count];
               g2 = set_edge g1 r (edge\<lparr>weight := ratio\<rparr>)
           in mean_fuzziness_for (Suc depth) g2 rs (ratios @ [ratio]) (counts @ [count])))"

text \<open>
  \<^verbatim>\<open>sorted\<close> is stable, also with \<^verbatim>\<open>reverse=True\<close>, where equal keys keep their order and
  larger keys come first.
\<close>

definition sorted_by_weight :: "bool \<Rightarrow> Edge list \<Rightarrow> Edge list" where
  "sorted_by_weight reverse es =
     (if reverse then sort_key (\<lambda>e. - weight e) es else sort_key weight es)"

fun sort_edges_by_weight_for :: "bool \<Rightarrow> nat list \<Rightarrow> 'p Graph \<Rightarrow> error + 'p Graph" where
  "sort_edges_by_weight_for reverse [] g = Inr g"
| "sort_edges_by_weight_for reverse (node # rest) g =
     (if node < length (fuzzy_starts g) \<and> node < length (adjacency g) then
        sort_edges_by_weight_for reverse rest
          (g\<lparr>fuzzy_starts := (fuzzy_starts g)[node := sorted_by_weight reverse (fuzzy_starts g ! node)],
             adjacency := (adjacency g)[node :=
                map (\<lambda>(key, es). (key, sorted_by_weight reverse es)) (adjacency g ! node)]\<rparr>)
      else Inl IndexError)"

definition sort_edges_by_weight :: "bool \<Rightarrow> 'p Graph \<Rightarrow> error + 'p Graph" where
  "sort_edges_by_weight reverse g = sort_edges_by_weight_for reverse [0..<nodes g] g"

definition finalize :: "'p Graph \<Rightarrow> error + 'p Graph" where
  "finalize g =
     (if finalized g then Inr g
      else case get_mean_fuzziness recursion_limit g 0 of
        Inl e \<Rightarrow> Inl e
      | Inr (_, g1) \<Rightarrow>
          (case sort_edges_by_weight True g1 of
             Inl e \<Rightarrow> Inl e
           | Inr g2 \<Rightarrow>
               (case get_max_match_size recursion_limit g2 0 of
                  Inl e \<Rightarrow> Inl e
                | Inr (longest, g3) \<Rightarrow>
                    (case sort_edges_by_weight False (g3\<lparr>longest_path := longest\<rparr>) of
                       Inl e \<Rightarrow> Inl e
                     | Inr g4 \<Rightarrow> Inr (g4\<lparr>finalized := True\<rparr>)))))"

section \<open>The sequential scan\<close>

text \<open>
  The target is a \<^verbatim>\<open>bytes\<close> object. The cursor is a Python integer: indexing with a
  negative integer counts from the end and raises \<^verbatim>\<open>IndexError\<close> beyond the start, a slice
  clamps both of its bounds.
\<close>

definition py_index :: "'a list \<Rightarrow> int \<Rightarrow> error + 'a" where
  "py_index xs i =
     (let n = int (length xs);
          j = (if i < 0 then i + n else i)
      in if 0 \<le> j \<and> j < n then Inr (xs ! nat j) else Inl IndexError)"

definition py_clamp :: "nat \<Rightarrow> int \<Rightarrow> nat" where
  "py_clamp n i = (let j = (if i < 0 then i + int n else i) in if j < 0 then 0 else min n (nat j))"

definition py_slice :: "'a list \<Rightarrow> int \<Rightarrow> int \<Rightarrow> 'a list" where
  "py_slice xs i j =
     (let start = py_clamp (length xs) i;
          stop = py_clamp (length xs) j
      in take (stop - start) (drop start xs))"

type_synonym 'p MatchRes = "'p list \<times> int \<times> int"

text \<open>
  One round of the inner loop \<^verbatim>\<open>while edge_stack\<close>, after the pop: the round ends the
  scan of this position with a match at a leaf (\<^verbatim>\<open>yield\<close>, \<^verbatim>\<open>break\<close>), or the loop goes on
  with a new stack and a new candidate.
\<close>

datatype 'p round = Leaf "'p MatchRes" int "'p Graph"
  | Continue "(int \<times> Edge) list" "'p MatchRes option" "'p Graph"

definition has_edges :: "'p Graph \<Rightarrow> nat \<Rightarrow> error + bool" where
  "has_edges g n =
     (if n < length (adjacency g) then
        (if adjacency g ! n \<noteq> [] then Inr True
         else if n < length (fuzzy_starts g) then Inr (fuzzy_starts g ! n \<noteq> [])
         else Inl IndexError)
      else Inl IndexError)"

definition extend_path ::
  "'p Graph \<Rightarrow> byte list \<Rightarrow> int \<Rightarrow> Edge \<Rightarrow> (int \<times> Edge) list \<Rightarrow> 'p MatchRes option \<Rightarrow> error + 'p round"
where
  "extend_path g target p edge edge_stack intermediate =
     (case py_index target (p + int (len edge)) of
        Inl e \<Rightarrow> Inr (Continue edge_stack intermediate g)
      | Inr byte \<Rightarrow>
          (case to_bin g byte of
             Inl e \<Rightarrow> Inl e
           | Inr bin_id \<Rightarrow>
               if to edge < length (adjacency g) then
                 (let g1 = g\<lparr>adjacency := (adjacency g)[to edge := dd_touch (adjacency g ! to edge) bin_id]\<rparr>
                  in if to edge < length (fuzzy_starts g1) then
                       Inr (Continue
                              (edge_stack @ map (\<lambda>t_edge. (p + int (len edge), t_edge))
                                 (dd_peek (adjacency g ! to edge) bin_id @ fuzzy_starts g1 ! to edge))
                              intermediate g1)
                     else Inl IndexError)
               else Inl IndexError))"

definition match_round ::
  "'p Graph \<Rightarrow> byte list \<Rightarrow> int \<Rightarrow> (int \<times> Edge) list \<Rightarrow> 'p MatchRes option \<Rightarrow> error + 'p round"
where
  "match_round g target offset edge_stack0 intermediate =
     (let (p, edge) = last edge_stack0;
          edge_stack = butlast edge_stack0
      in if matches edge (py_slice target p (p + int (len edge))) then
           (let node_data = dd_peek (data g) (to edge);
                g1 = g\<lparr>data := dd_touch (data g) (to edge)\<rparr>
            in if node_data \<noteq> [] then
                 (case has_edges g1 (to edge) of
                    Inl e \<Rightarrow> Inl e
                  | Inr False \<Rightarrow>
                      Inr (Leaf (node_data, match_size edge, p + int (len edge) + offset)
                                (p + int (len edge)) g1)
                  | Inr True \<Rightarrow>
                      (case intermediate of
                         None \<Rightarrow>
                           extend_path g1 target p edge edge_stack
                             (Some (node_data, match_size edge, p + int (len edge)))
                       | Some (_, old_size, _) \<Rightarrow>
                           if old_size \<ge> match_size edge
                           then Inr (Continue edge_stack intermediate g1)
                           else extend_path g1 target p edge edge_stack
                                  (Some (node_data, match_size edge, p + int (len edge)))))
               else extend_path g1 target p edge edge_stack intermediate)
         else Inr (Continue edge_stack intermediate g))"

text \<open>
  The inner loop with its \<^verbatim>\<open>else\<close> branch: the outcome is what the scan of this position
  yields, if anything, and the cursor before realignment. The loop need not end on a
  graph with edges of length zero, so the function is partial.
\<close>

partial_function (option) match_while ::
  "'p Graph \<Rightarrow> byte list \<Rightarrow> int \<Rightarrow> int \<Rightarrow> (int \<times> Edge) list \<Rightarrow> 'p MatchRes option
     \<Rightarrow> (error + 'p MatchRes option \<times> int \<times> 'p Graph) option"
where
  "match_while g target offset pos edge_stack intermediate =
     (if edge_stack \<noteq> [] then
        (case match_round g target offset edge_stack intermediate of
           Inl e \<Rightarrow> Some (Inl e)
         | Inr (Leaf res pos1 g1) \<Rightarrow> Some (Inr (Some res, pos1, g1))
         | Inr (Continue edge_stack1 intermediate1 g1) \<Rightarrow>
             match_while g1 target offset pos edge_stack1 intermediate1)
      else
        (case intermediate of
           Some (node_data, old_size, p) \<Rightarrow> Some (Inr (Some (node_data, old_size, p + offset), p, g))
         | None \<Rightarrow> Some (Inr (None, pos + 1, g))))"

text \<open>The head of the outer loop: the stack of the edges that leave the root.\<close>

definition seed_stack :: "'p Graph \<Rightarrow> byte list \<Rightarrow> int \<Rightarrow> error + (int \<times> Edge) list \<times> 'p Graph" where
  "seed_stack g target pos =
     (case py_index target pos of
        Inl e \<Rightarrow> Inl e
      | Inr byte \<Rightarrow>
          (case to_bin g byte of
             Inl e \<Rightarrow> Inl e
           | Inr bin_id \<Rightarrow>
               if 0 < length (adjacency g) then
                 (let g1 = g\<lparr>adjacency := (adjacency g)[0 := dd_touch (adjacency g ! 0) bin_id]\<rparr>
                  in if 0 < length (fuzzy_starts g1) then
                       Inr (map (\<lambda>edge. (pos, edge)) (dd_peek (adjacency g ! 0) bin_id)
                              @ map (\<lambda>edge. (pos, edge)) (fuzzy_starts g1 ! 0), g1)
                     else Inl IndexError)
               else Inl IndexError))"

definition realign :: "int \<Rightarrow> int \<Rightarrow> int \<Rightarrow> error + int" where
  "realign pos offset align =
     (if align = 0 then Inl ZeroDivisionError else Inr (pos + (- pos - offset) mod align))"

text \<open>
  One pass through the body of the outer loop, from a cursor \<open>pos\<close> below the end of the
  target: what it yields and the cursor after realignment.
\<close>

definition match_attempt ::
  "'p Graph \<Rightarrow> byte list \<Rightarrow> int \<Rightarrow> int \<Rightarrow> int
     \<Rightarrow> ('p MatchRes list \<times> (error + int \<times> 'p Graph)) option"
where
  "match_attempt g target offset align pos =
     (case seed_stack g target pos of
        Inl e \<Rightarrow> Some ([], Inl e)
      | Inr (edge_stack, g1) \<Rightarrow>
          (case match_while g1 target offset pos edge_stack None of
             None \<Rightarrow> None
           | Some (Inl e) \<Rightarrow> Some ([], Inl e)
           | Some (Inr (res, pos1, g2)) \<Rightarrow>
               (case realign pos1 offset align of
                  Inl e \<Rightarrow> Some (case_option [] (\<lambda>r. [r]) res, Inl e)
                | Inr pos2 \<Rightarrow> Some (case_option [] (\<lambda>r. [r]) res, Inr (pos2, g2)))))"

text \<open>
  The generator \<^verbatim>\<open>match\<close>, run until it is exhausted or raises: the results it has yielded,
  in order, and then the exception or the graph as the scan leaves it. \<open>None\<close> is a scan
  that never ends.
\<close>

partial_function (option) match_loop ::
  "'p Graph \<Rightarrow> byte list \<Rightarrow> int \<Rightarrow> int \<Rightarrow> int \<Rightarrow> 'p MatchRes list
     \<Rightarrow> ('p MatchRes list \<times> (error + 'p Graph)) option"
where
  "match_loop g target offset align pos out =
     (if pos < int (length target) then
        (case match_attempt g target offset align pos of
           None \<Rightarrow> None
         | Some (ys, Inl e) \<Rightarrow> Some (out @ ys, Inl e)
         | Some (ys, Inr (pos2, g2)) \<Rightarrow> match_loop g2 target offset align pos2 (out @ ys))
      else Some (out, Inr g))"

definition Graph_match ::
  "'p Graph \<Rightarrow> byte list \<Rightarrow> int \<Rightarrow> int \<Rightarrow> ('p MatchRes list \<times> (error + 'p Graph)) option"
where
  "Graph_match g target offset align =
     (case finalize g of
        Inl e \<Rightarrow> Some ([], Inl e)
      | Inr g1 \<Rightarrow> match_loop g1 target offset align 0 [])"

section \<open>The parallel driver\<close>

text \<open>
  The queues of \<^verbatim>\<open>multiprocessing\<close> are lists: a job queue holds the jobs a worker takes
  from it, in order, and ends with \<^verbatim>\<open>Empty\<close>; the results queue is the sequence of all
  items put on it, in the order of their arrival. An item is a match or the sentinel
  \<^verbatim>\<open>None\<close>. A slice is its start and its stop.
\<close>

type_synonym 'p item = "'p MatchRes option"

definition yield_matches_to_queue ::
  "'p Graph \<Rightarrow> byte list \<Rightarrow> 'p item list \<Rightarrow> int \<Rightarrow> int \<Rightarrow> ('p item list \<times> (error + 'p Graph)) option"
where
  "yield_matches_to_queue graph target queue offset align =
     (case Graph_match graph target offset align of
        None \<Rightarrow> None
      | Some (ys, Inl e) \<Rightarrow> Some (queue @ map Some ys, Inl e)
      | Some (ys, Inr g) \<Rightarrow> Some (queue @ map Some ys @ [None], Inr g))"

text \<open>
  \<^verbatim>\<open>worker\<close> runs under \<^verbatim>\<open>logger.catch\<close>: an exception ends the worker and is logged, not
  raised. The result is the results queue after the worker has ended.
\<close>

fun worker ::
  "'p Graph \<Rightarrow> byte list \<Rightarrow> ((nat \<times> nat) \<times> int) list \<Rightarrow> 'p item list \<Rightarrow> 'p item list option"
where
  "worker graph binary [] done_queue = Some done_queue"
| "worker graph binary (((start, stop), align) # job_queue) done_queue =
     (case yield_matches_to_queue graph (py_slice binary (int start) (int stop)) done_queue
             (int start) align of
        None \<Rightarrow> None
      | Some (q, Inl e) \<Rightarrow> Some q
      | Some (q, Inr g) \<Rightarrow> worker g binary job_queue q)"


section \<open>Well-formed graphs\<close>

text \<open>
  A place of the graph names an edge when its list exists and is long enough.
\<close>

fun valid_ref :: "'p Graph \<Rightarrow> edge_ref \<Rightarrow> bool" where
  "valid_ref g (Fuzzy n, i) = (n < length (fuzzy_starts g) \<and> i < length (fuzzy_starts g ! n))"
| "valid_ref g (Bin n k, i) = (n < length (adjacency g) \<and> i < length (dd_peek (adjacency g ! n) k))"

declare insert_while.simps [code]
declare match_while.simps [code]
declare match_loop.simps [code]

section \<open>Example graphs\<close>

text \<open>
  The graph after \<^verbatim>\<open>insert\<close> of the literal fragment \<^verbatim>\<open>ABCDEF\<close> with payload 1 into a new
  graph with 256 bins, and that graph after a further \<^verbatim>\<open>insert\<close> of \<^verbatim>\<open>ABXY\<close> with
  payload 2, which splits the edge at offset 2.
\<close>

definition graph_ABCDEF :: "nat Graph" where
  "graph_ABCDEF =
     \<lparr>data = [(1, [1])],
      adjacency = [[(65, [\<lparr>to = 1, path = literal [65, 66, 67, 68, 69, 70], len = 6,
                            match_size = 6, weight = 6\<rparr>])], []],
      fuzzy_starts = [[], []], longest_path = 0, bin_count = 256, nodes = 2,
      finalized = False\<rparr>"

definition graph_ABXY :: "nat Graph" where
  "graph_ABXY =
     \<lparr>data = [(1, [1]), (3, [2])],
      adjacency =
        [[(65, [\<lparr>to = 2, path = literal [65, 66], len = 2, match_size = 4, weight = 6\<rparr>])],
         [],
         [(67, [\<lparr>to = 1, path = literal [67, 68, 69, 70], len = 4, match_size = 6, weight = 6\<rparr>]),
          (88, [\<lparr>to = 3, path = literal [88, 89], len = 2, match_size = 4, weight = 4\<rparr>])],
         []],
      fuzzy_starts = [[], [], [], []], longest_path = 0, bin_count = 256, nodes = 4,
      finalized = False\<rparr>"

text \<open>The second example graph after \<^verbatim>\<open>finalize\<close>.\<close>

definition graph_ABXY_final :: "nat Graph" where
  "graph_ABXY_final = graph_ABXY\<lparr>longest_path := 6, finalized := True\<rparr>"

text \<open>
  The graph after \<^verbatim>\<open>insert\<close> of \<^verbatim>\<open>ABCD\<close> (payload 1), \<^verbatim>\<open>A\<close> (payload 2) and \<^verbatim>\<open>AB\<close> (payload 3)
  into a new graph, in this order, and after \<^verbatim>\<open>finalize\<close>; and the graph after \<^verbatim>\<open>insert\<close> of
  \<^verbatim>\<open>AB\<close> (payload 1) alone, before and after \<^verbatim>\<open>finalize\<close>.
\<close>

definition edge_B :: Edge where
  "edge_B = \<lparr>to = 3, path = literal [66], len = 1, match_size = 3, weight = 4\<rparr>"

definition graph_A_AB_ABCD :: "nat Graph" where
  "graph_A_AB_ABCD =
     \<lparr>data = [(1, [1]), (2, [2]), (3, [3])],
      adjacency =
        [[(65, [\<lparr>to = 2, path = literal [65], len = 1, match_size = 3, weight = 4\<rparr>])],
         [],
         [(66, [edge_B])],
         [(67, [\<lparr>to = 1, path = literal [67, 68], len = 2, match_size = 4, weight = 4\<rparr>])]],
      fuzzy_starts = [[], [], [], []], longest_path = 4, bin_count = 256, nodes = 4,
      finalized = True\<rparr>"

definition graph_AB :: "nat Graph" where
  "graph_AB =
     \<lparr>data = [(1, [1])],
      adjacency = [[(65, [\<lparr>to = 1, path = literal [65, 66], len = 2, match_size = 2, weight = 2\<rparr>])], []],
      fuzzy_starts = [[], []], longest_path = 0, bin_count = 256, nodes = 2,
      finalized = False\<rparr>"

definition graph_AB_final :: "nat Graph" where
  "graph_AB_final = graph_AB\<lparr>longest_path := 2, finalized := True\<rparr>"

section \<open>Counting on the results queue\<close>

text \<open>
  The number of sentinels among the items of a queue, and its matches in order.
\<close>

definition sentinels :: "'a option list \<Rightarrow> nat" where
  "sentinels q = length (filter (\<lambda>i. i = None) q)"

definition matches_of :: "'a option list \<Rightarrow> 'a list" where
  "matches_of q = map the (filter (\<lambda>i. i \<noteq> None) q)"

section \<open>What a scan may change\<close>

text \<open>
  A dictionary has grown when it is the old dictionary followed by keys bound to empty
  lists. A graph is only touched when nothing but this has happened to its payload
  dictionary and to the bin dictionaries of its nodes.
\<close>

definition dd_grown :: "('k, 'v) defaultdict \<Rightarrow> ('k, 'v) defaultdict \<Rightarrow> bool" where
  "dd_grown d d' = (take (length d) d' = d \<and> list_all (\<lambda>kv. snd kv = []) (drop (length d) d'))"

definition only_touched :: "'p Graph \<Rightarrow> 'p Graph \<Rightarrow> bool" where
  "only_touched g g' =
     (nodes g' = nodes g \<and> fuzzy_starts g' = fuzzy_starts g \<and> longest_path g' = longest_path g
      \<and> bin_count g' = bin_count g \<and> finalized g' = finalized g
      \<and> dd_grown (data g) (data g') \<and> list_all2 dd_grown (adjacency g) (adjacency g'))"

fun round_graph :: "'p round \<Rightarrow> 'p Graph" where
  "round_graph (Leaf res pos g) = g"
| "round_graph (Continue edge_stack intermediate g) = g"

text \<open>
  The finalized example graph as the scan of \<^verbatim>\<open>ABXY\<close> followed by two zero bytes leaves
  it: the scan has looked up the payload of node 2 and the bin of byte 0 at the root.
\<close>

definition graph_ABXY_scanned :: "nat Graph" where
  "graph_ABXY_scanned =
     graph_ABXY_final
       \<lparr>data := data graph_ABXY_final @ [(2, [])],
        adjacency := (adjacency graph_ABXY_final)[0 := adjacency graph_ABXY_final ! 0 @ [(0, [])]]\<rparr>"

section \<open>Destinations in range\<close>

text \<open>
  Every edge of a graph that \<^verbatim>\<open>insert\<close> has built leads to a node that exists: the node
  lists are as long as the node counter says, there is a root, and the keys of a
  dictionary are distinct. \<open>well_formed\<close> says this of a graph; \<open>dests_in_range\<close> is
  the part of it that a scan relies on.
\<close>

definition dest_ok :: "'p Graph \<Rightarrow> Edge \<Rightarrow> bool" where
  "dest_ok g e = (to e < length (adjacency g) \<and> to e < length (fuzzy_starts g))"

definition graph_edges :: "'p Graph \<Rightarrow> Edge list" where
  "graph_edges g = concat (map (\<lambda>d. concat (map snd d)) (adjacency g)) @ concat (fuzzy_starts g)"

definition dests_in_range :: "'p Graph \<Rightarrow> bool" where
  "dests_in_range g =
     (0 < length (adjacency g) \<and> 0 < length (fuzzy_starts g) \<and> list_all (dest_ok g) (graph_edges g))"

definition well_formed :: "'p Graph \<Rightarrow> bool" where
  "well_formed g =
     (dests_in_range g \<and> nodes g = length (adjacency g) \<and> nodes g = length (fuzzy_starts g)
      \<and> list_all (\<lambda>d. distinct (map fst d)) (adjacency g))"

definition stack_ok :: "'p Graph \<Rightarrow> (int \<times> Edge) list \<Rightarrow> bool" where
  "stack_ok g edge_stack = list_all (\<lambda>pe. 0 \<le> fst pe \<and> dest_ok g (snd pe)) edge_stack"


text \<open>
  The shape of a graph is what the passes of \<^verbatim>\<open>finalize\<close> that assign weights leave alone:
  the keys of the bins and the destination of every edge, in order.
\<close>

definition shape :: "'p Graph \<Rightarrow> (int \<times> nat list) list list \<times> nat list list \<times> nat" where
  "shape g =
     (map (map (\<lambda>kv. (fst kv, map to (snd kv)))) (adjacency g),
      map (map to) (fuzzy_starts g), nodes g)"

section \<open>Two signatures, one a prefix of the other\<close>




section \<open>Facts about dictionaries and places\<close>

lemma dd_peek_update [simp]:
  "dd_peek (AList.update k v d) k' = (if k' = k then v else dd_peek d k')"
  by (simp add: dd_peek_def update_conv')

lemma dd_peek_touch [simp]: "dd_peek (dd_touch d k) k' = dd_peek d k'"
  by (auto simp: dd_peek_def dd_touch_def split: option.splits if_splits)

section \<open>Insertion of the empty fragment\<close>

text \<open>
  Claim C10. For a fragment of length zero the loop of \<^verbatim>\<open>insert\<close> is never entered: the
  call returns \<^verbatim>\<open>None\<close>, no boolean, and the graph it leaves is the graph it was given with
  the flag \<open>finalized\<close> set to false. No node, edge or payload is added, whatever the
  payload is.
\<close>

theorem insert_empty_fragment:
  "Graph_insert [] d g = Some (Inr (None, g\<lparr>finalized := False\<rparr>))"
  unfolding Graph_insert_def by (subst insert_while.simps) simp

section \<open>Splitting an edge\<close>

lemma graph_ABCDEF_inserted:
  "Graph_insert (literal [65, 66, 67, 68, 69, 70]) 1 (Graph_init 256)
     = Some (Inr (Some True, graph_ABCDEF))"
  by code_simp

lemma graph_ABXY_inserted:
  "Graph_insert (literal [65, 66, 88, 89]) 2 graph_ABCDEF = Some (Inr (Some True, graph_ABXY))"
  by code_simp

text \<open>
  What \<^verbatim>\<open>_split_edge\<close> leaves behind, for an edge that exists, a cut strictly inside its
  fragment, and a graph whose node counter is the length of its node lists: the edge
  keeps the prefix and leads to the new node, the new node has the tail edge as its only
  edge, and the tail edge has the match size that the edge had before the split.
\<close>

lemma split_edge_result:
  assumes v: "valid_ref g r"
    and p: "0 < p" "p < length (path (get_edge g r))"
    and bc: "bin_count g \<noteq> 0"
    and n: "nodes g = length (adjacency g)" "nodes g = length (fuzzy_starts g)"
  shows "\<exists>g'. split_edge r p g = Inr g' \<and> nodes g' = nodes g + 1
      \<and> path (get_edge g' r) = take p (path (get_edge g r))
      \<and> len (get_edge g' r) = p
      \<and> to (get_edge g' r) = nodes g
      \<and> match_size (get_edge g' r) = match_size (get_edge g r) - int p
      \<and> edges_at g' (nodes g) =
          [\<lparr>to = to (get_edge g r), path = drop p (path (get_edge g r)),
            len = length (path (get_edge g r)) - p,
            match_size = match_size (get_edge g r),
            weight = of_int (match_size (get_edge g r))\<rparr>]"
proof -
  obtain b f rest where d: "drop p (path (get_edge g r)) = (b, f) # rest"
    using p by (cases "drop p (path (get_edge g r))") auto
  have dl: "Suc (length rest) = length (path (get_edge g r)) - p"
    using arg_cong [OF d, of length] by simp
  show ?thesis
  proof (cases r)
    case (Pair l i)
    show ?thesis
    proof (cases l)
      case (Fuzzy n')
      with Pair v p bc n d dl show ?thesis
        by (cases f)
          (simp_all add: split_edge_def split_at_def new_node_def add_edge_def Edge_init_def
            get_edge_def set_edge_def edges_at_def to_bin_def dd_append_def dd_peek_def
            nth_append Let_def)
    next
      case (Bin n' k)
      with Pair v p bc n d dl show ?thesis
        by (cases f)
          (simp_all add: split_edge_def split_at_def new_node_def add_edge_def Edge_init_def
            get_edge_def set_edge_def edges_at_def to_bin_def dd_append_def
            nth_append Let_def, simp_all add: dd_peek_def)
    qed
  qed
qed

text \<open>
  Claim C1, as the code has it. When an edge is split at offset \<open>p\<close>, the new tail edge,
  the only edge of the new intermediate node, leads to the old destination and carries
  the rest of the fragment and the match size of the original edge, not lowered by \<open>p\<close>.
  The original edge keeps the first \<open>p\<close> positions, its length field becomes \<open>p\<close> and it
  leads to the new node.
\<close>

theorem split_edge_tail_keeps_match_size:
  assumes "valid_ref g r"
    and "0 < p" and "p < length (path (get_edge g r))"
    and "bin_count g \<noteq> 0"
    and "nodes g = length (adjacency g)" and "nodes g = length (fuzzy_starts g)"
  shows "\<exists>g'. split_edge r p g = Inr g'
      \<and> path (get_edge g' r) = take p (path (get_edge g r))
      \<and> len (get_edge g' r) = p
      \<and> to (get_edge g' r) = nodes g
      \<and> edges_at g' (nodes g) =
          [\<lparr>to = to (get_edge g r), path = drop p (path (get_edge g r)),
            len = length (path (get_edge g r)) - p,
            match_size = match_size (get_edge g r),
            weight = of_int (match_size (get_edge g r))\<rparr>]"
  using split_edge_result [OF assms] by blast

theorem split_edge_tail_keeps_match_size_witness:
  "valid_ref graph_ABCDEF (Bin 0 65, 0) \<and> (0::nat) < 2
   \<and> 2 < length (path (get_edge graph_ABCDEF (Bin 0 65, 0)))
   \<and> bin_count graph_ABCDEF \<noteq> 0
   \<and> nodes graph_ABCDEF = length (adjacency graph_ABCDEF)
   \<and> nodes graph_ABCDEF = length (fuzzy_starts graph_ABCDEF)
   \<and> (\<exists>g'. split_edge (Bin 0 65, 0) 2 graph_ABCDEF = Inr g'
        \<and> path (get_edge g' (Bin 0 65, 0)) = literal [65, 66]
        \<and> len (get_edge g' (Bin 0 65, 0)) = 2
        \<and> to (get_edge g' (Bin 0 65, 0)) = 2
        \<and> edges_at g' 2 =
            [\<lparr>to = 1, path = literal [67, 68, 69, 70], len = 4, match_size = 6, weight = 6\<rparr>])"
  using split_edge_tail_keeps_match_size [of graph_ABCDEF "(Bin 0 65, 0)" 2]
  by (simp add: graph_ABCDEF_def get_edge_def dd_peek_def literal_def eval_nat_numeral)

text \<open>
  Claim C1, as the spec words it, fails. The edge \<^verbatim>\<open>ABCDEF\<close> has match size 6. The insertion
  of \<^verbatim>\<open>ABXY\<close> splits it at offset 2: the tail edge \<^verbatim>\<open>CDEF\<close> of node 2 has match size 6, not
  \<open>6 - 2\<close>, and the prefix edge \<^verbatim>\<open>AB\<close> has match size 4, not 6.
\<close>

theorem split_edge_match_size_counterexample:
  "Graph_insert (literal [65, 66, 88, 89]) 2 graph_ABCDEF = Some (Inr (Some True, graph_ABXY))
   \<and> match_size (get_edge graph_ABCDEF (Bin 0 65, 0)) = 6
   \<and> path (get_edge graph_ABXY (Bin 2 67, 0)) = literal [67, 68, 69, 70]
   \<and> match_size (get_edge graph_ABXY (Bin 2 67, 0)) \<noteq> 6 - 2
   \<and> path (get_edge graph_ABXY (Bin 0 65, 0)) = literal [65, 66]
   \<and> match_size (get_edge graph_ABXY (Bin 0 65, 0)) \<noteq> 6"
  by code_simp

section \<open>Inserting a fragment twice\<close>

lemma fragment_lcp_self [simp]: "fragment_lcp f f = length f"
  by (induction f) (auto simp: position_agrees_def)



section \<open>Finalizing twice\<close>

lemma finalize_finalized: "finalize g = Inr g1 \<Longrightarrow> finalized g1"
  by (auto simp: finalize_def split: if_splits sum.splits prod.splits)

text \<open>
  Claim C8. When \<^verbatim>\<open>finalize\<close> has returned, a second call returns at once, by the guard
  on the flag \<open>finalized\<close>: it leaves the graph of the first call as it is, with the order
  of the edges in every bin and every fuzzy-start list and with \<open>longest_path\<close>.
\<close>

theorem finalize_idempotent:
  assumes "finalize g = Inr g1"
  shows "finalize g1 = Inr g1"
  using finalize_finalized [OF assms] by (simp add: finalize_def)

lemma graph_ABXY_finalized: "finalize graph_ABXY = Inr graph_ABXY_final"
  by code_simp

theorem finalize_idempotent_witness:
  "finalize graph_ABXY = Inr graph_ABXY_final \<and> finalize graph_ABXY_final = Inr graph_ABXY_final"
  using finalize_idempotent [OF graph_ABXY_finalized] graph_ABXY_finalized by simp

section \<open>A round of the scan\<close>

lemma graph_A_AB_ABCD_built:
  "(case Graph_insert (literal [65, 66, 67, 68]) 1 (Graph_init 256) of
      Some (Inr (Some True, g1)) \<Rightarrow>
        (case Graph_insert (literal [65]) 2 g1 of
           Some (Inr (Some True, g2)) \<Rightarrow>
             (case Graph_insert (literal [65, 66]) 3 g2 of
                Some (Inr (Some True, g3)) \<Rightarrow> finalize g3
              | _ \<Rightarrow> Inl IndexError)
         | _ \<Rightarrow> Inl IndexError)
    | _ \<Rightarrow> Inl IndexError) = Inr graph_A_AB_ABCD"
  by code_simp

lemma has_edges_data_update [simp]: "has_edges (g\<lparr>data := d\<rparr>) n = has_edges g n"
  by (simp add: has_edges_def)

text \<open>
  Claim C3, as the code has it. An edge is popped whose fragment matches the target, a
  next byte is in range, and the destination is not a leaf with a payload (which ends
  the scan of the position). When the destination has a payload and a candidate with a
  match size at least as large is recorded, the round ends at the \<^verbatim>\<open>continue\<close> and pushes
  nothing. In every other case it pushes the edges of the destination's bin of the next
  byte and then the destination's fuzzy-start edges, each with the position of the next
  byte.
\<close>

theorem match_round_pushes_unless_rejected:
  assumes "edge_stack \<noteq> []" and "last edge_stack = (p, edge)"
    and "matches edge (py_slice target p (p + int (len edge)))"
    and "py_index target (p + int (len edge)) = Inr byte"
    and "bin_count g \<noteq> 0"
    and "to edge < length (adjacency g)" and "to edge < length (fuzzy_starts g)"
    and "dd_peek (data g) (to edge) \<noteq> [] \<Longrightarrow>
           adjacency g ! to edge \<noteq> [] \<or> fuzzy_starts g ! to edge \<noteq> []"
  shows "\<exists>candidate g'. match_round g target offset edge_stack intermediate =
           Inr (Continue
             (if dd_peek (data g) (to edge) \<noteq> []
                 \<and> (case intermediate of None \<Rightarrow> False
                     | Some (_, old_size, _) \<Rightarrow> match_size edge \<le> old_size)
              then butlast edge_stack
              else butlast edge_stack @ map (\<lambda>t_edge. (p + int (len edge), t_edge))
                     (dd_peek (adjacency g ! to edge) (uint byte mod bin_count g)
                        @ fuzzy_starts g ! to edge))
             candidate g')"
proof -
  let ?g1 = "g\<lparr>data := dd_touch (data g) (to edge)\<rparr>"
  let ?pushed = "butlast edge_stack @ map (\<lambda>t_edge. (p + int (len edge), t_edge))
                     (dd_peek (adjacency g ! to edge) (uint byte mod bin_count g)
                        @ fuzzy_starts g ! to edge)"
  have ext: "\<exists>g'. extend_path ?g1 target p edge (butlast edge_stack) c = Inr (Continue ?pushed c g')" for c
    using assms(4-7) by (simp add: extend_path_def to_bin_def)
  have he: "dd_peek (data g) (to edge) \<noteq> [] \<Longrightarrow> has_edges g (to edge) = Inr True"
    using assms(6-8) by (auto simp: has_edges_def)
  show ?thesis
  proof (cases "dd_peek (data g) (to edge) = []")
    case True
    obtain g' where "extend_path ?g1 target p edge (butlast edge_stack) intermediate
        = Inr (Continue ?pushed intermediate g')"
      using ext by blast
    then have "match_round g target offset edge_stack intermediate
        = Inr (Continue ?pushed intermediate g')"
      using True assms(2,3) by (simp add: match_round_def)
    then show ?thesis
      using True by auto
  next
    case False
    let ?c = "Some (dd_peek (data g) (to edge), match_size edge, p + int (len edge))"
    obtain g' where g': "extend_path ?g1 target p edge (butlast edge_stack) ?c
        = Inr (Continue ?pushed ?c g')"
      using ext by blast
    show ?thesis
    proof (cases intermediate)
      case None
      then have "match_round g target offset edge_stack intermediate
          = Inr (Continue ?pushed ?c g')"
        using False assms(2,3) he g' by (simp add: match_round_def)
      then show ?thesis
        using None by auto
    next
      case (Some c)
      obtain d s e where c: "c = (d, s, e)"
        by (cases c)
      show ?thesis
      proof (cases "match_size edge \<le> s")
        case True
        then have "match_round g target offset edge_stack intermediate
            = Inr (Continue (butlast edge_stack) intermediate ?g1)"
          using False assms(2,3) he Some c by (simp add: match_round_def)
        then show ?thesis
          using True False Some c by auto
      next
        case le: False
        then have "match_round g target offset edge_stack intermediate
            = Inr (Continue ?pushed ?c g')"
          using False assms(2,3) he g' Some c by (simp add: match_round_def)
        then show ?thesis
          using le Some c by auto
      qed
    qed
  qed
qed

theorem match_round_pushes_unless_rejected_witness:
  "[(0 :: int, hd (dd_peek (adjacency graph_ABXY_final ! 0) 65))] \<noteq> []
   \<and> matches (hd (dd_peek (adjacency graph_ABXY_final ! 0) 65)) (py_slice [65, 66, 88, 89] 0 2)
   \<and> py_index [65, 66, 88, 89 :: byte] 2 = Inr 88
   \<and> bin_count graph_ABXY_final \<noteq> 0
   \<and> (\<exists>candidate g'.
         match_round graph_ABXY_final [65, 66, 88, 89] 0
           [(0, hd (dd_peek (adjacency graph_ABXY_final ! 0) 65))] None =
         Inr (Continue
               [(2, \<lparr>to = 3, path = literal [88, 89], len = 2, match_size = 4, weight = 4\<rparr>)]
               candidate g'))"
  using match_round_pushes_unless_rejected
    [of "[(0, hd (dd_peek (adjacency graph_ABXY_final ! 0) 65))]" 0
      "hd (dd_peek (adjacency graph_ABXY_final ! 0) 65)" "[65, 66, 88, 89]" 88
      graph_ABXY_final 0 None]
  by (simp add: graph_ABXY_final_def graph_ABXY_def dd_peek_def literal_def matches_def
      fragment_eq_def py_slice_def py_clamp_def py_index_def position_matches_def)

text \<open>
  Claim C3, as the spec words it, fails. The scan of \<^verbatim>\<open>ABCD\<close> pops the edge \<^verbatim>\<open>B\<close> at
  position 1 while the candidate of node 2 is recorded with match size 3. The edge
  matches, the byte at position 2 is in range and node 3 has an edge in the bin of that
  byte, but node 3 has a payload and match size 3, which is not greater: the round leaves
  the stack empty.
\<close>

theorem match_round_rejected_counterexample:
  "matches edge_B (py_slice [65, 66, 67, 68] 1 (1 + int (len edge_B)))
   \<and> py_index [65, 66, 67, 68 :: byte] (1 + int (len edge_B)) = Inr 67
   \<and> dd_peek (adjacency graph_A_AB_ABCD ! to edge_B) 67 \<noteq> []
   \<and> match_round graph_A_AB_ABCD [65, 66, 67, 68] 0 [(1, edge_B)] (Some ([2], 3, 1))
       = Inr (Continue [] (Some ([2], 3, 1)) graph_A_AB_ABCD)"
  by code_simp

lemma scan_ABCD_stops_at_A:
  "Graph_match graph_A_AB_ABCD [65, 66, 67, 68] 0 2
     = Some ([([2], 3, 1)],
         Inr (graph_A_AB_ABCD\<lparr>adjacency :=
               (adjacency graph_A_AB_ABCD)[0 := adjacency graph_A_AB_ABCD ! 0 @ [(67, [])]]\<rparr>))"
  by code_simp

section \<open>Alignment of the cursor\<close>

lemma realign_aligned:
  assumes "realign pos offset align = Inr pos'"
  shows "(pos' + offset) mod align = 0"
proof -
  from assms have pos': "pos' = pos + (- pos - offset) mod align"
    by (auto simp: realign_def split: if_splits)
  have "(pos + (- pos - offset) mod align + offset) mod align
      = ((pos + offset) + (- pos - offset) mod align) mod align"
    by (simp add: ac_simps)
  also have "\<dots> = ((pos + offset) + (- pos - offset)) mod align"
    by (rule mod_add_right_eq)
  also have "\<dots> = 0"
    by simp
  finally show ?thesis
    unfolding pos' .
qed

lemma match_attempt_realigned:
  assumes "match_attempt g target offset align pos = Some (ys, Inr (pos', g'))"
  shows "(pos' + offset) mod align = 0"
  using assms
  by (auto simp: match_attempt_def split: sum.splits option.splits prod.splits
      dest: realign_aligned)

text \<open>
  Claim C5, as the code has it. With \<^verbatim>\<open>align=4\<close> and offset 0 the cursor is a multiple of 4
  whenever an attempt begins: it begins at 0, and every pass through the loop hands on a
  realigned cursor. Nothing of the kind holds for the end offsets of the results, which
  are yielded before the realignment.
\<close>

theorem match_attempt_cursor_aligned:
  assumes "match_attempt g target 0 4 pos = Some (ys, Inr (pos', g'))"
  shows "pos' mod 4 = 0"
  using match_attempt_realigned [OF assms] by simp

lemma graph_AB_inserted:
  "Graph_insert (literal [65, 66]) 1 (Graph_init 256) = Some (Inr (Some True, graph_AB))"
  by code_simp

lemma graph_AB_finalized: "finalize graph_AB = Inr graph_AB_final"
  by code_simp

lemma attempt_AB:
  "match_attempt graph_AB_final [65, 66] 0 4 0 = Some ([([1], 2, 2)], Inr (4, graph_AB_final))"
  by code_simp

theorem match_attempt_cursor_aligned_witness:
  "match_attempt graph_AB_final [65, 66] 0 4 0 = Some ([([1], 2, 2)], Inr (4, graph_AB_final))
   \<and> (4 :: int) mod 4 = 0"
  using match_attempt_cursor_aligned [OF attempt_AB] attempt_AB by simp

text \<open>
  Claim C5, as the spec words it, fails. The scan of \<^verbatim>\<open>AB\<close> with \<^verbatim>\<open>align=4\<close> and offset 0,
  for the graph that holds \<^verbatim>\<open>AB\<close>, yields one result, and its end offset is 2.
\<close>

theorem match_end_offset_counterexample:
  "Graph_match graph_AB [65, 66] 0 4 = Some ([([1], 2, 2)], Inr graph_AB_final)
   \<and> (2 :: int) mod 4 \<noteq> 0"
  by code_simp

section \<open>Sentinels of the parallel driver\<close>

lemma sentinels_simps [simp]:
  "sentinels [] = 0"
  "sentinels (None # q) = Suc (sentinels q)"
  "sentinels (Some m # q) = sentinels q"
  "sentinels (q @ q') = sentinels q + sentinels q'"
  by (simp_all add: sentinels_def)

lemma matches_of_simps [simp]:
  "matches_of [] = []"
  "matches_of (None # q) = matches_of q"
  "matches_of (Some m # q) = m # matches_of q"
  by (simp_all add: matches_of_def)




lemma yield_matches_one_sentinel:
  assumes "yield_matches_to_queue g target q offset align = Some (q', Inr g')"
  shows "\<exists>ys. q' = q @ map Some ys @ [None]"
  using assms
  by (auto simp: yield_matches_to_queue_def split: option.splits sum.splits prod.splits)

lemma sentinels_map_Some [simp]: "sentinels (map Some ys) = 0"
  by (induction ys) simp_all

lemma worker_sentinels:
  "worker g binary jobs q = Some q' \<Longrightarrow> sentinels q' \<le> sentinels q + length jobs"
proof (induction jobs arbitrary: g q)
  case Nil
  then show ?case by simp
next
  case (Cons job jobs)
  obtain start stop align where job: "job = ((start, stop), align)"
    by (cases job) auto
  show ?case
  proof (cases "yield_matches_to_queue g (py_slice binary (int start) (int stop)) q (int start) align")
    case None
    with Cons.prems job show ?thesis by simp
  next
    case (Some r)
    obtain q1 out where r: "r = (q1, out)"
      by (cases r)
    show ?thesis
    proof (cases out)
      case (Inl e)
      with Some r Cons.prems job have "q' = q1" by simp
      moreover have "sentinels q1 = sentinels q"
        using Some r Inl
        by (auto simp: yield_matches_to_queue_def split: option.splits sum.splits prod.splits)
      ultimately show ?thesis by simp
    next
      case (Inr g1)
      with Some r Cons.prems job have "worker g1 binary jobs q1 = Some q'" by simp
      from Cons.IH [OF this] have "sentinels q' \<le> sentinels q1 + length jobs" .
      moreover have "sentinels q1 = sentinels q + 1"
      proof -
        obtain ys where "q1 = q @ map Some ys @ [None]"
          using yield_matches_one_sentinel Some r Inr by blast
        then show ?thesis by simp
      qed
      ultimately show ?thesis by simp
    qed
  qed
qed





section \<open>The scan only touches the graph\<close>

lemma dd_grown_refl [simp]: "dd_grown d d"
  by (simp add: dd_grown_def)

lemma dd_grownE:
  assumes "dd_grown d d'"
  obtains extra where "d' = d @ extra" and "\<forall>kv \<in> set extra. snd kv = []"
proof
  show "d' = d @ drop (length d) d'"
    using assms by (metis append_take_drop_id dd_grown_def)
  show "\<forall>kv \<in> set (drop (length d) d'). snd kv = []"
    using assms by (simp add: dd_grown_def list_all_iff)
qed

lemma dd_grownI: "\<forall>kv \<in> set extra. snd kv = [] \<Longrightarrow> dd_grown d (d @ extra)"
  by (simp add: dd_grown_def list_all_iff)

lemma dd_grown_trans: "dd_grown d d' \<Longrightarrow> dd_grown d' d'' \<Longrightarrow> dd_grown d d''"
proof -
  assume a: "dd_grown d d'" and b: "dd_grown d' d''"
  from a obtain e1 where e1: "d' = d @ e1" "\<forall>kv \<in> set e1. snd kv = []"
    by (rule dd_grownE)
  from b obtain e2 where e2: "d'' = d' @ e2" "\<forall>kv \<in> set e2. snd kv = []"
    by (rule dd_grownE)
  have "d'' = d @ (e1 @ e2)"
    using e1 e2 by simp
  moreover have "\<forall>kv \<in> set (e1 @ e2). snd kv = []"
    using e1 e2 by auto
  ultimately show ?thesis
    using dd_grownI by blast
qed

lemma dd_grown_touch [simp]: "dd_grown d (dd_touch d k)"
  by (cases "map_of d k") (simp_all add: dd_touch_def dd_grown_def)

lemma map_of_empty_extra:
  "\<forall>kv \<in> set extra. snd kv = [] \<Longrightarrow> map_of extra k = None \<or> map_of extra k = Some []"
  by (induction extra) auto

lemma dd_grown_peek:
  assumes "dd_grown d d'"
  shows "dd_peek d' k = dd_peek d k"
proof -
  from assms obtain extra where e: "d' = d @ extra" "\<forall>kv \<in> set extra. snd kv = []"
    by (rule dd_grownE)
  show ?thesis
    using map_of_empty_extra [OF e(2), of k]
    by (auto simp: dd_peek_def e(1) map_add_def split: option.splits)
qed

lemma list_all2_dd_grown_refl [simp]: "list_all2 dd_grown ds ds"
  by (simp add: list_all2_refl)

lemma list_all2_dd_grown_trans:
  "list_all2 dd_grown ds ds' \<Longrightarrow> list_all2 dd_grown ds' ds'' \<Longrightarrow> list_all2 dd_grown ds ds''"
  using dd_grown_trans by (rule list_all2_trans)

lemma list_all2_dd_grown_touch [simp]:
  "list_all2 dd_grown ds (ds[n := dd_touch (ds ! n) k])"
proof (cases "n < length ds")
  case True
  then show ?thesis
    by (auto simp: list_all2_conv_all_nth nth_list_update)
next
  case False
  then have "ds[n := dd_touch (ds ! n) k] = ds"
    by (intro list_update_beyond) simp
  then show ?thesis
    by (simp add: list_all2_refl)
qed

lemma only_touched_refl [simp]: "only_touched g g"
  by (simp add: only_touched_def)

lemma only_touched_trans:
  "only_touched g g' \<Longrightarrow> only_touched g' g'' \<Longrightarrow> only_touched g g''"
  unfolding only_touched_def
  using dd_grown_trans list_all2_dd_grown_trans by metis

lemma extend_path_only_touched:
  "extend_path g target p edge edge_stack intermediate = Inr r \<Longrightarrow> only_touched g (round_graph r)"
  by (auto simp: extend_path_def only_touched_def Let_def split: sum.splits if_splits)

lemma only_touched_data_touch [simp]: "only_touched g (g\<lparr>data := dd_touch (data g) n\<rparr>)"
  by (simp add: only_touched_def)

lemma match_round_only_touched:
  assumes "match_round g target offset edge_stack intermediate = Inr r"
  shows "only_touched g (round_graph r)"
proof -
  let ?g1 = "g\<lparr>data := dd_touch (data g) (to (snd (last edge_stack)))\<rparr>"
  have "r = Continue (butlast edge_stack) intermediate g
      \<or> r = Continue (butlast edge_stack) intermediate ?g1
      \<or> (\<exists>res pos. r = Leaf res pos ?g1)
      \<or> (\<exists>p st im. extend_path ?g1 target p (snd (last edge_stack)) st im = Inr r)"
    using assms
    by (auto simp: match_round_def Let_def split: prod.splits if_splits sum.splits
        option.splits bool.splits)
  then show ?thesis
    using extend_path_only_touched only_touched_trans [OF only_touched_data_touch]
    by fastforce
qed

lemma match_while_only_touched_aux:
  assumes "match_while g target offset pos edge_stack intermediate = Some y"
  shows "\<forall>res pos1 g1. y = Inr (res, pos1, g1) \<longrightarrow> only_touched g g1"
  using assms
proof (induct rule: match_while.raw_induct [rotated 1, consumes 1])
  case (1 f g target offset pos edge_stack intermediate y)
  show ?case
  proof (cases "edge_stack = []")
    case True
    with 1(2) show ?thesis
      by (auto split: option.splits)
  next
    case False
    show ?thesis
    proof (cases "match_round g target offset edge_stack intermediate")
      case (Inl e)
      with False 1(2) show ?thesis by auto
    next
      case (Inr r)
      note t = match_round_only_touched [OF Inr]
      show ?thesis
      proof (cases r)
        case (Leaf res pos1 g1)
        with False Inr 1(2) t show ?thesis by auto
      next
        case (Continue st im g1)
        with False Inr 1(2) have "f g1 target offset pos st im = Some y"
          by simp
        from 1(1) [OF this] Continue t show ?thesis
          using only_touched_trans by fastforce
      qed
    qed
  qed
qed

lemma match_while_only_touched:
  assumes "match_while g target offset pos edge_stack intermediate = Some (Inr (res, pos1, g1))"
  shows "only_touched g g1"
  using match_while_only_touched_aux [OF assms] by blast

lemma seed_stack_only_touched:
  "seed_stack g target pos = Inr (edge_stack, g1) \<Longrightarrow> only_touched g g1"
  by (auto simp: seed_stack_def only_touched_def Let_def split: sum.splits if_splits)

lemma match_attempt_only_touched:
  assumes "match_attempt g target offset align pos = Some (ys, Inr (pos2, g2))"
  shows "only_touched g g2"
  using assms
  by (auto simp: match_attempt_def split: sum.splits option.splits prod.splits
      dest!: seed_stack_only_touched match_while_only_touched intro: only_touched_trans)

lemma match_loop_only_touched_aux:
  assumes "match_loop g target offset align pos out = Some y"
  shows "\<forall>ys g'. y = (ys, Inr g') \<longrightarrow> only_touched g g'"
  using assms
proof (induct rule: match_loop.raw_induct [rotated 1, consumes 1])
  case (1 f g target offset align pos out y)
  show ?case
  proof (cases "pos < int (length target)")
    case False
    with 1(2) show ?thesis by auto
  next
    case True
    show ?thesis
    proof (cases "match_attempt g target offset align pos")
      case None
      with True 1(2) show ?thesis by simp
    next
      case (Some a)
      obtain zs r where a: "a = (zs, r)" by (cases a)
      show ?thesis
      proof (cases r)
        case (Inl e)
        with True Some a 1(2) show ?thesis by auto
      next
        case (Inr pg)
        obtain pos2 g2 where pg: "pg = (pos2, g2)" by (cases pg)
        have t: "only_touched g g2"
          using match_attempt_only_touched Some a Inr pg by blast
        have "f g2 target offset align pos2 (out @ zs) = Some y"
          using True Some a Inr pg 1(2) by simp
        from 1(1) [OF this] t show ?thesis
          using only_touched_trans by blast
      qed
    qed
  qed
qed

lemma match_loop_only_touched:
  assumes "match_loop g target offset align pos out = Some (ys, Inr g')"
  shows "only_touched g g'"
  using match_loop_only_touched_aux [OF assms] by blast

lemma only_touched_peek:
  assumes "only_touched g g'"
  shows "dd_peek (data g') n = dd_peek (data g) n"
    and "n < length (adjacency g) \<Longrightarrow> dd_peek (adjacency g' ! n) k = dd_peek (adjacency g ! n) k"
    and "length (adjacency g') = length (adjacency g)"
  using assms
  by (auto simp: only_touched_def list_all2_conv_all_nth intro: dd_grown_peek)

text \<open>
  Claim C4, as the code has it. A scan of a finalized graph that runs to its end leaves
  the node count, the fuzzy-start lists, \<open>longest_path\<close> and the number of bin
  dictionaries as they were, and every bin and every payload list reads as before. The
  bin dictionaries and the payload dictionary themselves may have gained keys bound to
  empty lists, and nothing else: they are \<^verbatim>\<open>defaultdict\<close>s, and the scan reads them.
\<close>

theorem scan_only_touches:
  assumes "finalized g" and "Graph_match g target offset align = Some (ys, Inr g')"
  shows "nodes g' = nodes g \<and> fuzzy_starts g' = fuzzy_starts g
     \<and> longest_path g' = longest_path g
     \<and> length (adjacency g') = length (adjacency g)
     \<and> (\<forall>n k. n < length (adjacency g)
           \<longrightarrow> dd_peek (adjacency g' ! n) k = dd_peek (adjacency g ! n) k)
     \<and> (\<forall>n. dd_peek (data g') n = dd_peek (data g) n)
     \<and> only_touched g g'"
proof -
  have "match_loop g target offset align 0 [] = Some (ys, Inr g')"
    using assms by (simp add: Graph_match_def finalize_def)
  then have t: "only_touched g g'"
    by (rule match_loop_only_touched)
  then show ?thesis
    using only_touched_peek [OF t] by (simp add: only_touched_def)
qed

lemma scan_ABXY:
  "Graph_match graph_ABXY_final [65, 66, 88, 89, 0, 0] 0 2
     = Some ([([2], 4, 4)], Inr graph_ABXY_scanned)"
  by code_simp

lemma graph_ABXY_final_finalized: "finalized graph_ABXY_final"
  by (simp add: graph_ABXY_final_def)

theorem scan_only_touches_witness:
  "finalized graph_ABXY_final
   \<and> Graph_match graph_ABXY_final [65, 66, 88, 89, 0, 0] 0 2
       = Some ([([2], 4, 4)], Inr graph_ABXY_scanned)
   \<and> nodes graph_ABXY_scanned = nodes graph_ABXY_final
   \<and> fuzzy_starts graph_ABXY_scanned = fuzzy_starts graph_ABXY_final
   \<and> dd_peek (adjacency graph_ABXY_scanned ! 0) 0 = dd_peek (adjacency graph_ABXY_final ! 0) 0
   \<and> dd_peek (data graph_ABXY_scanned) 2 = dd_peek (data graph_ABXY_final) 2
   \<and> only_touched graph_ABXY_final graph_ABXY_scanned"
  using scan_only_touches [OF graph_ABXY_final_finalized scan_ABXY]
    graph_ABXY_final_finalized scan_ABXY
  by (simp add: graph_ABXY_final_def graph_ABXY_def)

text \<open>
  Claim C4, as the spec words it, fails. The same scan of the finalized graph leaves the
  bin dictionary of the root with the new key 0 and the payload dictionary with the new
  key 2: neither is identical to what it was.
\<close>

theorem scan_adds_keys_counterexample:
  "finalized graph_ABXY_final
   \<and> Graph_match graph_ABXY_final [65, 66, 88, 89, 0, 0] 0 2
       = Some ([([2], 4, 4)], Inr graph_ABXY_scanned)
   \<and> adjacency graph_ABXY_scanned \<noteq> adjacency graph_ABXY_final
   \<and> map fst (adjacency graph_ABXY_final ! 0) = [65]
   \<and> map fst (adjacency graph_ABXY_scanned ! 0) = [65, 0]
   \<and> data graph_ABXY_scanned \<noteq> data graph_ABXY_final
   \<and> map fst (data graph_ABXY_final) = [1, 3]
   \<and> map fst (data graph_ABXY_scanned) = [1, 3, 2]"
  by code_simp

section \<open>A scan of a graph with destinations in range\<close>









lemma stack_ok_append [simp]: "stack_ok g (xs @ ys) = (stack_ok g xs \<and> stack_ok g ys)"
  by (simp add: stack_ok_def)





lemma dest_ok_data_update [simp]: "dest_ok (g\<lparr>data := d\<rparr>) = dest_ok g"
  by (rule ext) (simp add: dest_ok_def)

lemma dests_in_range_data_update [simp]: "dests_in_range (g\<lparr>data := d\<rparr>) = dests_in_range g"
  by (simp add: dests_in_range_def graph_edges_def)

lemma stack_ok_data_update [simp]: "stack_ok (g\<lparr>data := d\<rparr>) st = stack_ok g st"
  by (simp add: stack_ok_def)






section \<open>Finalization of a well-formed graph\<close>

lemma shape_lengths:
  assumes "shape g' = shape g"
  shows "length (adjacency g') = length (adjacency g)"
    and "length (fuzzy_starts g') = length (fuzzy_starts g)"
    and "nodes g' = nodes g"
    and "n < length (fuzzy_starts g) \<Longrightarrow> map to (fuzzy_starts g' ! n) = map to (fuzzy_starts g ! n)"
    and "n < length (adjacency g) \<Longrightarrow>
           map (\<lambda>kv. (fst kv, map to (snd kv))) (adjacency g' ! n)
             = map (\<lambda>kv. (fst kv, map to (snd kv))) (adjacency g ! n)"
proof -
  have a: "map (map (\<lambda>kv. (fst kv, map to (snd kv)))) (adjacency g')
      = map (map (\<lambda>kv. (fst kv, map to (snd kv)))) (adjacency g)"
    and f: "map (map to) (fuzzy_starts g') = map (map to) (fuzzy_starts g)"
    and "nodes g' = nodes g"
    using assms by (simp_all add: shape_def)
  then show "nodes g' = nodes g" by simp
  show la: "length (adjacency g') = length (adjacency g)"
    using a by (rule map_eq_imp_length_eq)
  show lf: "length (fuzzy_starts g') = length (fuzzy_starts g)"
    using f by (rule map_eq_imp_length_eq)
  show "map to (fuzzy_starts g' ! n) = map to (fuzzy_starts g ! n)" if "n < length (fuzzy_starts g)"
    using arg_cong [OF f, of "\<lambda>xs. xs ! n"] that lf by simp
  show "map (\<lambda>kv. (fst kv, map to (snd kv))) (adjacency g' ! n)
      = map (\<lambda>kv. (fst kv, map to (snd kv))) (adjacency g ! n)" if "n < length (adjacency g)"
    using arg_cong [OF a, of "\<lambda>xs. xs ! n"] that la by simp
qed







lemma map_to_graph_edges:
  "map to (graph_edges g)
     = concat (map (\<lambda>d. concat (map snd d)) (fst (shape g))) @ concat (fst (snd (shape g)))"
  by (simp add: graph_edges_def shape_def map_concat comp_def)

lemma map_fst_shape:
  "map (map fst) (adjacency g) = map (map fst) (fst (shape g))"
  by (simp add: shape_def comp_def)

lemma list_all_dest_ok:
  "list_all (dest_ok h) es
     = list_all (\<lambda>t. t < length (adjacency h) \<and> t < length (fuzzy_starts h)) (map to es)"
  by (simp add: list_all_iff dest_ok_def)

lemma list_all_distinct_keys:
  "list_all (\<lambda>d. distinct (map fst d)) ds = list_all distinct (map (map fst) ds)"
  by (simp add: list_all_iff)

lemma shape_well_formed:
  assumes "shape g' = shape g"
  shows "well_formed g' = well_formed g"
proof -
  note l = shape_lengths(1,2,3) [OF assms]
  have e: "map to (graph_edges g') = map to (graph_edges g)"
    by (simp add: map_to_graph_edges assms)
  note d = list_all_dest_ok
  have "list_all (dest_ok g') (graph_edges g')
      = list_all (\<lambda>t. t < length (adjacency g') \<and> t < length (fuzzy_starts g'))
          (map to (graph_edges g'))"
    by (rule d)
  also have "\<dots> = list_all (\<lambda>t. t < length (adjacency g) \<and> t < length (fuzzy_starts g))
          (map to (graph_edges g))"
    by (simp only: e l)
  also have "\<dots> = list_all (dest_ok g) (graph_edges g)"
    by (rule d [symmetric])
  finally have "list_all (dest_ok g') (graph_edges g') = list_all (dest_ok g) (graph_edges g)" .
  moreover have "list_all (\<lambda>d. distinct (map fst d)) (adjacency g')
      = list_all (\<lambda>d. distinct (map fst d)) (adjacency g)"
    by (simp add: list_all_distinct_keys map_fst_shape assms)
  ultimately show ?thesis
    by (simp add: well_formed_def dests_in_range_def l)
qed






lemma set_sorted_by_weight [simp]:
  "set (sorted_by_weight reverse es) = set es"
  by (simp add: sorted_by_weight_def)







lemma well_formed_longest_path [simp]:
  "well_formed (g\<lparr>longest_path := n\<rparr>) = well_formed g"
  by (rule shape_well_formed) (simp add: shape_def)

lemma well_formed_finalized [simp]:
  "well_formed (g\<lparr>finalized := b\<rparr>) = well_formed g"
  by (rule shape_well_formed) (simp add: shape_def)


section \<open>Index errors of the scan\<close>


lemma Graph_init_well_formed: "well_formed (Graph_init bc)"
  by (simp add: well_formed_def dests_in_range_def graph_edges_def Graph_init_def new_node_def)





section \<open>A signature that extends another\<close>



lemma fragment_eq_literal [simp]: "fragment_eq (literal xs) xs"
  by (induction xs) (simp_all add: fragment_eq_def literal_def position_matches_def)





lemma fragment_lcp_prefix [simp]:
  "fragment_lcp f (f @ h) = length f" "fragment_lcp (f @ h) f = length f"
  by (induction f) (auto simp: position_agrees_def)


lemma length_literal [simp]: "length (literal bs) = length bs"
  by (simp add: literal_def)



lemma literal_eq_Nil [simp]: "literal bs = [] \<longleftrightarrow> bs = []"
  by (simp add: literal_def)

lemma fuzz_ratio_literal [simp]: "fuzz_ratio (literal bs) = 0"
  by (simp add: fuzz_ratio_def literal_def filter_empty_conv)
















end
